theory Spec2Isabelle
  imports Main
begin

section \<open>Regular expressions: the part of Python's re that utils.py uses\<close>

text \<open>
  The patterns of \<^verbatim>\<open>utils.py\<close> are built from literals, character classes, the dot,
  greedy and lazy repetition, capture groups, alternation, a lookahead, \<^verbatim>\<open>$\<close> and
  \<^verbatim>\<open>\Z\<close>. None of them looks behind the current position, so a match attempt depends
  only on the rest of the subject string. Characters are 8-bit; the classes \<^verbatim>\<open>\w\<close> and
  \<^verbatim>\<open>\s\<close> are the ASCII ones.
\<close>

datatype regex =
    Lit char
  | Cls bool "(char \<times> char) list"
  | Dot
  | Seq regex regex
  | Alt regex regex
  | Star regex
  | LazyStar regex
  | Group nat regex
  | Ahead regex
  | Dollar
  | EndZ

record flags =
  multiline :: bool
  dotall :: bool

type_synonym groups = "nat \<rightharpoonup> string"

definition no_flags :: flags where
  "no_flags = \<lparr>multiline = False, dotall = False\<rparr>"

fun in_ranges :: "char \<Rightarrow> (char \<times> char) list \<Rightarrow> bool" where
  "in_ranges c [] = False"
| "in_ranges c ((lo, hi) # rs) =
     (((of_char lo :: nat) \<le> of_char c \<and> (of_char c :: nat) \<le> of_char hi) \<or> in_ranges c rs)"

text \<open>
  The backtracking matcher. \<open>re_match f r s g\<close> lists, in the order in which a
  backtracking engine tries them, the ways in which \<open>r\<close> matches a prefix of \<open>s\<close>:
  each as the unconsumed rest with the capture groups. A repetition only iterates on
  after a step that consumed input.
\<close>

fun re_match :: "flags \<Rightarrow> regex \<Rightarrow> string \<Rightarrow> groups \<Rightarrow> (string \<times> groups) list" where
  "re_match f (Lit c) s g =
     (case s of [] \<Rightarrow> [] | x # xs \<Rightarrow> if x = c then [(xs, g)] else [])"
| "re_match f (Cls neg rs) s g =
     (case s of [] \<Rightarrow> [] | x # xs \<Rightarrow> if in_ranges x rs \<noteq> neg then [(xs, g)] else [])"
| "re_match f Dot s g =
     (case s of [] \<Rightarrow> [] | x # xs \<Rightarrow> if dotall f \<or> x \<noteq> CHR 0x0A then [(xs, g)] else [])"
| "re_match f (Seq a b) s g =
     concat (map (\<lambda>(s', g'). re_match f b s' g') (re_match f a s g))"
| "re_match f (Alt a b) s g = re_match f a s g @ re_match f b s g"
| "re_match f (Star a) s g =
     concat (map (\<lambda>(s', g'). if length s' < length s then re_match f (Star a) s' g' else [])
                 (re_match f a s g))
     @ [(s, g)]"
| "re_match f (LazyStar a) s g =
     (s, g) #
     concat (map (\<lambda>(s', g'). if length s' < length s then re_match f (LazyStar a) s' g' else [])
                 (re_match f a s g))"
| "re_match f (Group n a) s g =
     map (\<lambda>(s', g'). (s', g'(n \<mapsto> take (length s - length s') s))) (re_match f a s g)"
| "re_match f (Ahead a) s g =
     (case re_match f a s g of [] \<Rightarrow> [] | (s', g') # _ \<Rightarrow> [(s, g')])"
| "re_match f Dollar s g =
     (if s = [] \<or> (if multiline f then hd s = CHR 0x0A else s = [CHR 0x0A])
      then [(s, g)] else [])"
| "re_match f EndZ s g = (if s = [] then [(s, g)] else [])"

definition match_here :: "flags \<Rightarrow> regex \<Rightarrow> string \<Rightarrow> (string \<times> groups) option" where
  "match_here f r s = (case re_match f r s Map.empty of [] \<Rightarrow> None | x # _ \<Rightarrow> Some x)"

definition match_group :: "groups \<Rightarrow> nat \<Rightarrow> string" where
  "match_group g n = (case g n of None \<Rightarrow> [] | Some t \<Rightarrow> t)"

text \<open>\<^verbatim>\<open>re.search\<close>: the leftmost position at which the pattern matches.\<close>

fun re_search :: "flags \<Rightarrow> regex \<Rightarrow> string \<Rightarrow> groups option" where
  "re_search f r s =
     (case match_here f r s of
        Some (rest, g) \<Rightarrow> Some g
      | None \<Rightarrow> (case s of [] \<Rightarrow> None | c # cs \<Rightarrow> re_search f r cs))"

text \<open>
  \<^verbatim>\<open>re.finditer\<close>: the non-overlapping matches from left to right. After a match the
  scan goes on where the match ended (one character further after an empty match,
  which no pattern of \<^verbatim>\<open>utils.py\<close> can produce).
\<close>

function re_finditer :: "flags \<Rightarrow> regex \<Rightarrow> string \<Rightarrow> groups list" where
  "re_finditer f r s =
     (case match_here f r s of
        Some (rest, g) \<Rightarrow>
          (if length rest < length s then g # re_finditer f r rest
           else g # (case s of [] \<Rightarrow> [] | c # cs \<Rightarrow> re_finditer f r cs))
      | None \<Rightarrow> (case s of [] \<Rightarrow> [] | c # cs \<Rightarrow> re_finditer f r cs))"
  by pat_completeness auto
termination
  by (relation "measure (\<lambda>(f, r, s). length s)") auto

text \<open>
  \<^verbatim>\<open>re.sub\<close> with a replacement template made of literal text and group references
  (\<^verbatim>\<open>\1\<close>): text between matches is copied, each match is replaced.
\<close>

datatype piece = Text string | Ref nat

fun expand :: "piece list \<Rightarrow> groups \<Rightarrow> string" where
  "expand [] g = []"
| "expand (Text t # ps) g = t @ expand ps g"
| "expand (Ref n # ps) g = match_group g n @ expand ps g"

function re_sub :: "flags \<Rightarrow> regex \<Rightarrow> piece list \<Rightarrow> string \<Rightarrow> string" where
  "re_sub f r repl s =
     (case match_here f r s of
        Some (rest, g) \<Rightarrow>
          (if length rest < length s then expand repl g @ re_sub f r repl rest
           else expand repl g @ (case s of [] \<Rightarrow> [] | c # cs \<Rightarrow> c # re_sub f r repl cs))
      | None \<Rightarrow> (case s of [] \<Rightarrow> [] | c # cs \<Rightarrow> c # re_sub f r repl cs))"
  by pat_completeness auto
termination
  by (relation "measure (\<lambda>(f, r, repl, s). length s)") auto

subsection \<open>Pattern notation\<close>

fun seqs :: "regex list \<Rightarrow> regex" where
  "seqs [] = Star (Cls False [])"
| "seqs [r] = r"
| "seqs (r # rs) = Seq r (seqs rs)"

definition str :: "string \<Rightarrow> regex" where
  "str s = seqs (map Lit s)"

definition Plus :: "regex \<Rightarrow> regex" where
  "Plus r = Seq r (Star r)"

definition LazyPlus :: "regex \<Rightarrow> regex" where
  "LazyPlus r = Seq r (LazyStar r)"

text \<open>\<^verbatim>\<open>\w\<close>, \<^verbatim>\<open>\s\<close> and the explicit classes of the patterns.\<close>

definition word_ranges :: "(char \<times> char) list" where
  "word_ranges = [(CHR ''a'', CHR ''z''), (CHR ''A'', CHR ''Z''), (CHR ''0'', CHR ''9''),
                  (CHR ''_'', CHR ''_'')]"

definition space_ranges :: "(char \<times> char) list" where
  "space_ranges = [(CHR 0x09, CHR 0x0D), (CHR 0x1C, CHR 0x1F), (CHR '' '', CHR '' '')]"

definition w :: regex where "w = Cls False word_ranges"

definition ws :: regex where "ws = Cls False space_ranges"

definition ident_start :: regex where
  "ident_start = Cls False [(CHR ''a'', CHR ''z''), (CHR ''A'', CHR ''Z''), (CHR ''_'', CHR ''_'')]"

definition ident_part :: regex where
  "ident_part = Cls False [(CHR ''a'', CHR ''z''), (CHR ''A'', CHR ''Z''), (CHR ''0'', CHR ''9''),
                            (CHR ''_'', CHR ''_'')]"

definition upper :: regex where
  "upper = Cls False [(CHR ''A'', CHR ''Z'')]"

section \<open>clean\_annotation\_pattern\<close>

text \<open>The seven (pattern, replacement) pairs, in the order of the source.\<close>

definition patterns :: "(regex \<times> piece list) list" where
  "patterns =
    [ (str ''typing.'', []),
      (str ''__main__.'', []),
      (str ''builtins.'', []),
      (str ''collections.abc.'', []),
      (seqs [ident_start, Star ident_part, Lit (CHR ''.''),
             Group 1 (Seq upper (Star ident_part))],
       [Ref 1]),
      (seqs [str ''<class '', Lit (CHR 0x27), Group 1 (Plus w), Lit (CHR 0x27), Lit (CHR ''>'')],
       [Ref 1]),
      (seqs [str ''<class '', Lit (CHR 0x27),
             Group 1 (seqs [Plus w, Lit (CHR ''.''), Plus w]),
             Lit (CHR 0x27), Lit (CHR ''>'')],
       [Ref 1]) ]"

definition clean_annotation_pattern :: "string \<Rightarrow> string" where
  "clean_annotation_pattern annotation_str =
     fold (\<lambda>(pattern, replacement) cleaned. re_sub no_flags pattern replacement cleaned)
          patterns annotation_str"

section \<open>Python values that the code can raise or return\<close>

text \<open>
  The exceptions that matter to the two \<^verbatim>\<open>except\<close> clauses of \<^verbatim>\<open>utils.py\<close>:
  \<^verbatim>\<open>except (SyntaxError, ValueError)\<close> catches the first two,
  \<^verbatim>\<open>except Exception\<close> all three. \<open>OtherException\<close> stands for any other subclass
  of \<^verbatim>\<open>Exception\<close> (e.g. \<^verbatim>\<open>RecursionError\<close>, \<^verbatim>\<open>MemoryError\<close>).
\<close>

datatype py_exn = SyntaxError | ValueError | OtherException

datatype DocstringStyle = GOOGLE | NUMPY | SPHINX | AUTO

section \<open>The syntax trees of Python's ast module\<close>

text \<open>
  The node classes for which \<^verbatim>\<open>AnnotationCleaner\<close> has a method, \<^verbatim>\<open>Tuple\<close> (which
  \<^verbatim>\<open>visit_Subscript\<close> tests for), and \<open>Node\<close> for every other class: its class name
  and its child nodes, in the order in which \<^verbatim>\<open>ast.iter_fields\<close> yields them (a field
  holding a list of nodes contributes its items in order). Context and operator nodes
  have no children and no visitor method, so they add nothing to the result and are left out
  of the child lists.
\<close>

datatype operator = BitOr | OtherOp string

datatype py_const = CNone | CBool bool | CInt int | CStr string | CEllipsis
  | COther string  \<comment> \<open>a float, complex or bytes value, carried as its \<^verbatim>\<open>repr\<close> text\<close>

datatype expr =
    Name string
  | Attribute expr string
  | Subscript expr expr
  | Constant py_const
  | BinOp expr operator expr
  | Tuple "expr list"
  | Node string "expr list"

subsection \<open>repr of a constant\<close>

function str_nat :: "nat \<Rightarrow> string" where
  "str_nat n = (if n < 10 then [''0123456789'' ! n]
                else str_nat (n div 10) @ [''0123456789'' ! (n mod 10)])"
  by pat_completeness auto
termination
  by (relation "measure id") auto

definition str_int :: "int \<Rightarrow> string" where
  "str_int i = (if i < 0 then CHR ''-'' # str_nat (nat (- i)) else str_nat (nat i))"

definition hex2 :: "nat \<Rightarrow> string" where
  "hex2 n = [''0123456789abcdef'' ! (n div 16), ''0123456789abcdef'' ! (n mod 16)]"

text \<open>
  \<^verbatim>\<open>repr\<close> of a \<^verbatim>\<open>str\<close>: single quotes, unless the text holds a single quote and no
  double quote; the quote character and the backslash are escaped, control characters
  are written as escapes.
\<close>

definition repr_char :: "char \<Rightarrow> char \<Rightarrow> string" where
  "repr_char q c =
     (if c = q \<or> c = CHR 0x5C then [CHR 0x5C, c]
      else if c = CHR 0x09 then [CHR 0x5C, CHR ''t'']
      else if c = CHR 0x0A then [CHR 0x5C, CHR ''n'']
      else if c = CHR 0x0D then [CHR 0x5C, CHR ''r'']
      else if (of_char c :: nat) < 32 \<or> 127 \<le> (of_char c :: nat)
        then [CHR 0x5C, CHR ''x''] @ hex2 (of_char c)
      else [c])"

definition repr_str :: "string \<Rightarrow> string" where
  "repr_str s =
     (let q = (if CHR 0x27 \<in> set s \<and> CHR 0x22 \<notin> set s then CHR 0x22 else CHR 0x27)
      in q # concat (map (repr_char q) s) @ [q])"

fun repr :: "py_const \<Rightarrow> string" where
  "repr CNone = ''None''"
| "repr (CBool b) = (if b then ''True'' else ''False'')"
| "repr (CInt i) = str_int i"
| "repr (CStr s) = repr_str s"
| "repr CEllipsis = ''Ellipsis''"
| "repr (COther t) = t"

section \<open>AnnotationCleaner\<close>

text \<open>
  The visitor appends to \<^verbatim>\<open>self.result\<close>, a list of strings: each visit function
  takes that list and returns it extended. \<open>visit\<close> is \<^verbatim>\<open>NodeVisitor.visit\<close>: it
  dispatches on the class of the node and falls back to \<^verbatim>\<open>generic_visit\<close>, which visits
  the child nodes in order. \<open>visit_elts\<close> is the loop of \<^verbatim>\<open>visit_Subscript\<close> over
  \<^verbatim>\<open>enumerate(node.slice.elts)\<close>, with the index \<open>i\<close>.
\<close>

fun visit :: "expr \<Rightarrow> string list \<Rightarrow> string list"
  and visit_elts :: "nat \<Rightarrow> expr list \<Rightarrow> string list \<Rightarrow> string list"
  and generic_visit :: "expr list \<Rightarrow> string list \<Rightarrow> string list"
where
  "visit (Name ident) result = result @ [ident]"
| "visit (Attribute v attr) result = result @ [attr]"
| "visit (Subscript v sl) result =
     (let result = visit v result;
          result = result @ [''[''];
          result = (case sl of
                      Tuple elts \<Rightarrow> visit_elts 0 elts result
                    | _ \<Rightarrow> visit sl result)
      in result @ ['']''])"
| "visit (Constant c) result = result @ [repr c]"
| "visit (BinOp l op r) result =
     (let result = visit l result;
          result = (if op = BitOr then result @ ['' | ''] else result)
      in visit r result)"
| "visit (Tuple elts) result = generic_visit elts result"
| "visit (Node cls children) result = generic_visit children result"
| "visit_elts i [] result = result"
| "visit_elts i (elt # elts) result =
     visit_elts (i + 1) elts (visit elt (if i > 0 then result @ ['', ''] else result))"
| "generic_visit [] result = result"
| "generic_visit (child # children) result = generic_visit children (visit child result)"

section \<open>ast.parse on a fragment of Python's expression syntax\<close>

datatype token =
    NAME string | NUMBER nat | STRING string
  | LSQB | RSQB | LPAR | RPAR | COMMA | DOT | VBAR

definition is_digit :: "char \<Rightarrow> bool" where
  "is_digit c = in_ranges c [(CHR ''0'', CHR ''9'')]"

definition is_ident_start :: "char \<Rightarrow> bool" where
  "is_ident_start c =
     in_ranges c [(CHR ''a'', CHR ''z''), (CHR ''A'', CHR ''Z''), (CHR ''_'', CHR ''_'')]"

definition is_ident_char :: "char \<Rightarrow> bool" where
  "is_ident_char c = (is_ident_start c \<or> is_digit c)"

definition is_plain_char :: "char \<Rightarrow> bool" where
  "is_plain_char c = (in_ranges c [(CHR '' '', CHR ''~'')] \<and> c \<noteq> CHR 0x5C)"

definition digit_val :: "char \<Rightarrow> nat" where
  "digit_val c = of_char c - 48"

definition nat_of_digits :: "string \<Rightarrow> nat" where
  "nat_of_digits ds = foldl (\<lambda>n c. 10 * n + digit_val c) 0 ds"

definition punct :: "char \<Rightarrow> token option" where
  "punct c =
     (if c = CHR ''['' then Some LSQB else if c = CHR '']'' then Some RSQB
      else if c = CHR ''('' then Some LPAR else if c = CHR '')'' then Some RPAR
      else if c = CHR '','' then Some COMMA else if c = CHR ''.'' then Some DOT
      else if c = CHR ''|'' then Some VBAR else None)"

text \<open>
  The tokenizer: names, decimal integers, string literals in single or double quotes
  whose text is printable ASCII without backslash, the punctuation above, and blanks
  between tokens. \<open>None\<close> is a lexical error.
\<close>

function tokenize :: "string \<Rightarrow> token list option" where
  "tokenize [] = Some []"
| "tokenize (c # cs) =
     (if c = CHR '' '' then tokenize cs
      else if is_ident_start c then
        map_option ((#) (NAME (c # takeWhile is_ident_char cs)))
                   (tokenize (dropWhile is_ident_char cs))
      else if is_digit c then
        (let ds = c # takeWhile is_digit cs; rest = dropWhile is_digit cs
         in if rest \<noteq> [] \<and> (is_ident_char (hd rest) \<or> hd rest = CHR ''.'') then None
            else if c = CHR ''0'' \<and> (\<exists>d \<in> set ds. d \<noteq> CHR ''0'') then None
            else map_option ((#) (NUMBER (nat_of_digits ds))) (tokenize rest))
      else if c = CHR 0x27 \<or> c = CHR 0x22 then
        (let body = takeWhile (\<lambda>x. x \<noteq> c) cs; rest = dropWhile (\<lambda>x. x \<noteq> c) cs
         in if rest = [] \<or> (\<exists>x \<in> set body. \<not> is_plain_char x) then None
            else map_option ((#) (STRING body)) (tokenize (tl rest)))
      else (case punct c of
              Some t \<Rightarrow> map_option ((#) t) (tokenize cs)
            | None \<Rightarrow> None))"
  by pat_completeness auto
termination
proof (relation "measure length")
  show "wf (measure length)" by simp
next
  fix c :: char and cs :: string
  have "length (dropWhile is_ident_char cs) \<le> length cs" by (rule length_dropWhile_le)
  then show "(dropWhile is_ident_char cs, c # cs) \<in> measure length" by simp
next
  fix c :: char and cs x xa :: string
  assume "xa = dropWhile is_digit cs"
  moreover have "length (dropWhile is_digit cs) \<le> length cs" by (rule length_dropWhile_le)
  ultimately show "(xa, c # cs) \<in> measure length" by simp
next
  fix c :: char and cs x xa :: string
  assume "xa = dropWhile (\<lambda>x. x \<noteq> c) cs"
  moreover have "length (dropWhile (\<lambda>x. x \<noteq> c) cs) \<le> length cs" by (rule length_dropWhile_le)
  ultimately show "(tl xa, c # cs) \<in> measure length" by simp
qed simp_all

text \<open>The reserved words of Python 3 (without \<^verbatim>\<open>None\<close>, \<^verbatim>\<open>True\<close>, \<^verbatim>\<open>False\<close>).\<close>

definition py_keywords :: "string list" where
  "py_keywords =
     [''and'', ''as'', ''assert'', ''async'', ''await'', ''break'', ''class'', ''continue'',
      ''def'', ''del'', ''elif'', ''else'', ''except'', ''finally'', ''for'', ''from'',
      ''global'', ''if'', ''import'', ''in'', ''is'', ''lambda'', ''nonlocal'', ''not'',
      ''or'', ''pass'', ''raise'', ''return'', ''try'', ''while'', ''with'', ''yield'']"

definition singletons :: "(string \<times> py_const) list" where
  "singletons = [(''None'', CNone), (''True'', CBool True), (''False'', CBool False)]"

text \<open>
  The parser, by recursive descent over the tokens. The fragment: a name, a decimal
  integer, a string literal, \<^verbatim>\<open>None\<close>, \<^verbatim>\<open>True\<close>, \<^verbatim>\<open>False\<close>, a parenthesised
  expression; followed by any number of \<^verbatim>\<open>.name\<close>, \<^verbatim>\<open>[e, ...]\<close> and \<^verbatim>\<open>(e, ...)\<close>;
  such operands joined by \<^verbatim>\<open>|\<close>, which associates to the left. A subscript with one
  expression and no trailing comma has that expression as its slice, any other a
  \<^verbatim>\<open>Tuple\<close>. A call is the node \<^verbatim>\<open>Call\<close> with its fields \<^verbatim>\<open>func\<close> and \<^verbatim>\<open>args\<close>.
  Every function returns the value parsed and the tokens left over. The comparisons of
  lengths only state that a sub-parser has consumed input.
\<close>

function parse_expr :: "token list \<Rightarrow> (expr \<times> token list) option"
  and parse_ors :: "expr \<Rightarrow> token list \<Rightarrow> (expr \<times> token list) option"
  and parse_primary :: "token list \<Rightarrow> (expr \<times> token list) option"
  and parse_trailers :: "expr \<Rightarrow> token list \<Rightarrow> (expr \<times> token list) option"
  and parse_args :: "token list \<Rightarrow> (expr list \<times> bool \<times> token list) option"
where
  "parse_expr ts =
     (case parse_primary ts of
        None \<Rightarrow> None
      | Some (e, ts') \<Rightarrow> if length ts' < length ts then parse_ors e ts' else None)"
| "parse_ors e ts =
     (if ts \<noteq> [] \<and> hd ts = VBAR then
        (case parse_primary (tl ts) of
           None \<Rightarrow> None
         | Some (r, ts') \<Rightarrow>
             if length ts' < length ts then parse_ors (BinOp e BitOr r) ts' else None)
      else Some (e, ts))"
| "parse_primary ts =
     (case ts of
        [] \<Rightarrow> None
      | t # ts1 \<Rightarrow>
         (case t of
            NAME n \<Rightarrow>
              (case map_of singletons n of
                 Some c \<Rightarrow> parse_trailers (Constant c) ts1
               | None \<Rightarrow> if n \<in> set py_keywords then None else parse_trailers (Name n) ts1)
          | NUMBER k \<Rightarrow> parse_trailers (Constant (CInt (int k))) ts1
          | STRING s \<Rightarrow> parse_trailers (Constant (CStr s)) ts1
          | LPAR \<Rightarrow>
              (case parse_expr ts1 of
                 None \<Rightarrow> None
               | Some (e, ts2) \<Rightarrow>
                   if ts2 \<noteq> [] \<and> hd ts2 = RPAR \<and> length ts2 \<le> length ts1
                   then parse_trailers e (tl ts2) else None)
          | _ \<Rightarrow> None))"
| "parse_trailers e ts =
     (case ts of
        [] \<Rightarrow> Some (e, ts)
      | t # ts1 \<Rightarrow>
         (case t of
            DOT \<Rightarrow>
              (case ts1 of
                 NAME n # ts2 \<Rightarrow>
                   if n \<in> set py_keywords \<or> n \<in> set (map fst singletons) then None
                   else parse_trailers (Attribute e n) ts2
               | _ \<Rightarrow> None)
          | LSQB \<Rightarrow>
              (case parse_args ts1 of
                 None \<Rightarrow> None
               | Some (es, trailing, ts2) \<Rightarrow>
                   if es \<noteq> [] \<and> ts2 \<noteq> [] \<and> hd ts2 = RSQB \<and> length ts2 \<le> length ts1
                   then parse_trailers
                          (Subscript e (if length es = 1 \<and> \<not> trailing then hd es else Tuple es))
                          (tl ts2)
                   else None)
          | LPAR \<Rightarrow>
              (case parse_args ts1 of
                 None \<Rightarrow> None
               | Some (es, trailing, ts2) \<Rightarrow>
                   if ts2 \<noteq> [] \<and> hd ts2 = RPAR \<and> length ts2 \<le> length ts1
                   then parse_trailers (Node ''Call'' (e # es)) (tl ts2)
                   else None)
          | _ \<Rightarrow> Some (e, ts)))"
| "parse_args ts =
     (if ts = [] \<or> hd ts = RSQB \<or> hd ts = RPAR then Some ([], False, ts)
      else
        (case parse_expr ts of
           None \<Rightarrow> None
         | Some (e, ts1) \<Rightarrow>
             if ts1 \<noteq> [] \<and> hd ts1 = COMMA \<and> length ts1 \<le> length ts then
               (case parse_args (tl ts1) of
                  None \<Rightarrow> None
                | Some (es, trailing, ts2) \<Rightarrow> Some (e # es, es = [] \<or> trailing, ts2))
             else Some ([e], False, ts1)))"
  by pat_completeness auto
termination
  by (relation "measure (\<lambda>x. case x of
          Inl (Inl ts) \<Rightarrow> 3 * length ts + 1
        | Inl (Inr (e, ts)) \<Rightarrow> 3 * length ts
        | Inr (Inl ts) \<Rightarrow> 3 * length ts
        | Inr (Inr (Inl (e, ts))) \<Rightarrow> 3 * length ts
        | Inr (Inr (Inr ts)) \<Rightarrow> 3 * length ts + 2)")
     (auto simp: neq_Nil_conv)

text \<open>
  \<^verbatim>\<open>ast.parse(s, mode='eval')\<close> of Python 3.9 or later, restricted to the fragment:
  the body of the \<^verbatim>\<open>Expression\<close> node, or the exception raised. Leading blanks are
  an \<^verbatim>\<open>IndentationError\<close>, a subclass of \<^verbatim>\<open>SyntaxError\<close>. Strings outside the
  fragment are reported as \<^verbatim>\<open>SyntaxError\<close> too, although CPython accepts more of
  them (other operators, the ellipsis, tuples outside subscripts, slices, keyword
  arguments, lambdas and conditionals, string prefixes and escapes, adjacent and
  triple-quoted string literals, floats, tabs and newlines, comments, non-ASCII names);
  on the other side CPython's limits on nesting depth and on the digits of an integer are
  not modelled. The functions below take the parser as an argument, so what is proved for
  every parser holds for CPython's; \<open>py_parse\<close> is used to evaluate them on concrete
  inputs and for the round trip of rendered type expressions.
\<close>

definition py_parse :: "string \<Rightarrow> py_exn + expr" where
  "py_parse s =
     (if s \<noteq> [] \<and> hd s = CHR '' '' then Inl SyntaxError
      else case tokenize s of
        None \<Rightarrow> Inl SyntaxError
      | Some ts \<Rightarrow> (case parse_expr ts of Some (e, []) \<Rightarrow> Inr e | _ \<Rightarrow> Inl SyntaxError))"


section \<open>The normalizer\<close>

type_synonym parser = "string \<Rightarrow> py_exn + expr"

text \<open>
  \<^verbatim>\<open>clean_annotation_ast\<close>: the body of the \<^verbatim>\<open>try\<close> is \<open>ast_path\<close>; the handler
  catches \<^verbatim>\<open>SyntaxError\<close> and \<^verbatim>\<open>ValueError\<close> only, any other exception propagates.
\<close>

definition ast_path :: "parser \<Rightarrow> string \<Rightarrow> py_exn + string" where
  "ast_path ast_parse annotation_str =
     (case ast_parse annotation_str of
        Inl e \<Rightarrow> Inl e
      | Inr body \<Rightarrow> Inr (concat (visit body [])))"

definition clean_annotation_ast :: "parser \<Rightarrow> string \<Rightarrow> py_exn + string" where
  "clean_annotation_ast ast_parse annotation_str =
     (case ast_path ast_parse annotation_str of
        Inr r \<Rightarrow> Inr r
      | Inl e \<Rightarrow>
          if e = SyntaxError \<or> e = ValueError
          then Inr (clean_annotation_pattern annotation_str)
          else Inl e)"

definition format_annotation_with_color :: "string \<Rightarrow> string \<Rightarrow> string" where
  "format_annotation_with_color annotation color =
     ''<fg='' @ color @ ''>('' @ annotation @ '')</>''"

text \<open>
  \<^verbatim>\<open>clean_annotation_string\<close> on a string (for which \<^verbatim>\<open>str\<close> is the identity): its
  handler catches every \<^verbatim>\<open>Exception\<close>. The colour is \<^verbatim>\<open>None\<close> or a string; the
  empty string is false in the test \<^verbatim>\<open>if color\<close>.
\<close>

definition clean_annotation_string :: "parser \<Rightarrow> string \<Rightarrow> string option \<Rightarrow> py_exn + string" where
  "clean_annotation_string ast_parse field_annotation color =
     (let annotation_str = field_annotation;
          clean_annotation =
            (case clean_annotation_ast ast_parse annotation_str of
               Inr r \<Rightarrow> r
             | Inl e \<Rightarrow> clean_annotation_pattern annotation_str)
      in case color of
           None \<Rightarrow> Inr clean_annotation
         | Some c \<Rightarrow>
             if c \<noteq> [] then Inr (format_annotation_with_color clean_annotation c)
             else Inr clean_annotation)"

section \<open>Docstring parameters\<close>

text \<open>
  \<^verbatim>\<open>docstring_parser.parse\<close> is a library outside the repository: it is an argument
  of the model, a function from the docstring to the exception it raises or to the
  \<^verbatim>\<open>params\<close> of the parsed docstring, each with its \<^verbatim>\<open>arg_name\<close> and its
  \<^verbatim>\<open>description\<close> (which may be \<^verbatim>\<open>None\<close>).
\<close>

record DocstringParam =
  arg_name :: string
  description :: "string option"

type_synonym docstring_parser = "string \<Rightarrow> py_exn + DocstringParam list"

definition is_space :: "char \<Rightarrow> bool" where
  "is_space c = in_ranges c space_ranges"

definition strip :: "string \<Rightarrow> string" where
  "strip s = rev (dropWhile is_space (rev (dropWhile is_space s)))"

definition nl :: regex where "nl = Lit (CHR 0x0A)"

text \<open>The pattern shared by the first two passes, with \<^verbatim>\<open>re.MULTILINE | re.DOTALL\<close>.\<close>

definition google_pattern :: regex where
  "google_pattern =
     seqs [str '':param'', Plus ws, Group 1 (Plus w), Lit (CHR '':''), Star ws,
           Group 2 (LazyPlus Dot),
           Ahead (Alt (seqs [nl, Star ws, Lit (CHR '':'')])
                 (Alt (seqs [nl, Star ws, nl]) Dollar))]"

definition sphinx_pattern :: regex where
  "sphinx_pattern = google_pattern"

definition numpy_pattern :: regex where
  "numpy_pattern =
     seqs [str ''Parameters'', nl, Plus (Lit (CHR ''-'')), nl,
           Group 1 (LazyStar Dot),
           Ahead (Alt (seqs [nl, Star ws, nl])
                 (Alt (seqs [nl, Star ws, upper]) EndZ))]"

definition param_pattern :: regex where
  "param_pattern =
     seqs [Group 1 (Plus w), Star ws, Lit (CHR '':''), Star ws,
           Star (Cls True [(CHR 0x0A, CHR 0x0A)]), nl, Star ws,
           Group 2 (LazyPlus Dot),
           Ahead (Alt (seqs [nl, Star ws, Plus w, Star ws, Lit (CHR '':'')]) Dollar)]"

definition ms_flags :: flags where
  "ms_flags = \<lparr>multiline = True, dotall = True\<rparr>"

definition s_flags :: flags where
  "s_flags = \<lparr>multiline = False, dotall = True\<rparr>"

type_synonym param_dict = "string \<rightharpoonup> string"

text \<open>The bodies of the three loops: the first assigns, the other two only fill a gap.\<close>

definition assign :: "groups \<Rightarrow> param_dict \<Rightarrow> param_dict" where
  "assign mt param_descriptions =
     (let param_name = match_group mt 1; description = strip (match_group mt 2)
      in param_descriptions(param_name \<mapsto> description))"

definition assign_if_absent :: "groups \<Rightarrow> param_dict \<Rightarrow> param_dict" where
  "assign_if_absent mt param_descriptions =
     (let param_name = match_group mt 1; description = strip (match_group mt 2)
      in if param_descriptions param_name = None
         then param_descriptions(param_name \<mapsto> description)
         else param_descriptions)"

definition google_pass :: "string \<Rightarrow> param_dict" where
  "google_pass docstring = fold assign (re_finditer ms_flags google_pattern docstring) Map.empty"

definition sphinx_pass :: "string \<Rightarrow> param_dict \<Rightarrow> param_dict" where
  "sphinx_pass docstring param_descriptions =
     fold assign_if_absent (re_finditer ms_flags sphinx_pattern docstring) param_descriptions"

definition numpy_pass :: "string \<Rightarrow> param_dict \<Rightarrow> param_dict" where
  "numpy_pass docstring param_descriptions =
     (case re_search s_flags numpy_pattern docstring of
        None \<Rightarrow> param_descriptions
      | Some numpy_match \<Rightarrow>
          (let params_section = match_group numpy_match 1
           in fold assign_if_absent (re_finditer s_flags param_pattern params_section)
                   param_descriptions))"

definition parse_docstring_manual :: "string \<Rightarrow> param_dict" where
  "parse_docstring_manual docstring =
     numpy_pass docstring (sphinx_pass docstring (google_pass docstring))"

text \<open>
  \<^verbatim>\<open>parse_docstring_params\<close>: the empty docstring is answered at once; otherwise the
  library is called with the docstring alone, and any exception leads to the manual
  extractor. A description that is \<^verbatim>\<open>None\<close> or empty is skipped.
\<close>

definition add_param :: "DocstringParam \<Rightarrow> param_dict \<Rightarrow> param_dict" where
  "add_param param param_descriptions =
     (case description param of
        None \<Rightarrow> param_descriptions
      | Some d \<Rightarrow>
          if d \<noteq> [] then param_descriptions(arg_name param \<mapsto> strip d)
          else param_descriptions)"

definition parse_docstring_params ::
  "docstring_parser \<Rightarrow> string \<Rightarrow> DocstringStyle \<Rightarrow> py_exn + param_dict" where
  "parse_docstring_params parse_docstring docstring style =
     (if docstring = [] then Inr Map.empty
      else case parse_docstring docstring of
        Inr params \<Rightarrow> Inr (fold add_param params Map.empty)
      | Inl e \<Rightarrow> Inr (parse_docstring_manual docstring))"

section \<open>The rendering policy, as the specification words it\<close>

text \<open>
  \<open>render e\<close> is what the visitor leaves in \<^verbatim>\<open>self.result\<close> for the node \<open>e\<close>,
  joined. \<open>join\<close> is \<^verbatim>\<open>sep.join\<close>, and \<open>slice_args\<close> the arguments of a subscript:
  the elements of a tuple slice, or the slice itself.
\<close>

definition render :: "expr \<Rightarrow> string" where
  "render e = concat (visit e [])"

fun join :: "string \<Rightarrow> string list \<Rightarrow> string" where
  "join sep [] = []"
| "join sep [x] = x"
| "join sep (x # y # ys) = x @ sep @ join sep (y # ys)"

definition slice_args :: "expr \<Rightarrow> expr list" where
  "slice_args sl = (case sl of Tuple elts \<Rightarrow> elts | _ \<Rightarrow> [sl])"

text \<open>The matches of the first pass that name the parameter \<open>k\<close>.\<close>

definition param_matches :: "string \<Rightarrow> string \<Rightarrow> groups list" where
  "param_matches docstring k =
     filter (\<lambda>mt. match_group mt 1 = k) (re_finditer ms_flags google_pattern docstring)"

section \<open>Type expressions and their canonical trees\<close>








text \<open>
  The equations of the scanning loops rewrite a call into a case distinction that holds
  the next call: they are unfolded by hand where needed.
\<close>

declare re_finditer.simps [simp del] re_sub.simps [simp del] re_search.simps [simp del]

section \<open>The visitor and its result list\<close>

lemma visit_elts_acc:
  assumes "\<And>x a. x \<in> set es \<Longrightarrow> visit x a = a @ visit x []"
  shows "visit_elts i es acc = acc @ visit_elts i es []"
  using assms
proof (induction es arbitrary: i acc)
  case Nil
  show ?case by simp
next
  case (Cons x xs)
  have x: "\<And>a. visit x a = a @ visit x []" by (rule Cons.prems) simp
  have xs: "\<And>j a. visit_elts j xs a = a @ visit_elts j xs []"
    by (rule Cons.IH) (rule Cons.prems, simp)
  show ?case
  proof (cases "i > 0")
    case True
    have "visit_elts i (x # xs) acc = (acc @ ['', ''] @ visit x []) @ visit_elts (i + 1) xs []"
      using True x[of "acc @ ['', '']"] xs[of "i + 1" "visit x (acc @ ['', ''])"] by simp
    moreover have "visit_elts i (x # xs) [] = (['', ''] @ visit x []) @ visit_elts (i + 1) xs []"
      using True x[of "['', '']"] xs[of "i + 1" "visit x ['', '']"] by simp
    ultimately show ?thesis by simp
  next
    case False
    have "visit_elts i (x # xs) acc = (acc @ visit x []) @ visit_elts (i + 1) xs []"
      using False x[of acc] xs[of "i + 1" "visit x acc"] by simp
    moreover have "visit_elts i (x # xs) [] = visit x [] @ visit_elts (i + 1) xs []"
      using False xs[of "i + 1" "visit x []"] by simp
    ultimately show ?thesis by simp
  qed
qed

lemma generic_visit_acc:
  assumes "\<And>x a. x \<in> set es \<Longrightarrow> visit x a = a @ visit x []"
  shows "generic_visit es acc = acc @ generic_visit es []"
  using assms
proof (induction es arbitrary: acc)
  case Nil
  show ?case by simp
next
  case (Cons x xs)
  have x: "\<And>a. visit x a = a @ visit x []" by (rule Cons.prems) simp
  have xs: "\<And>a. generic_visit xs a = a @ generic_visit xs []"
    by (rule Cons.IH) (rule Cons.prems, simp)
  have "generic_visit (x # xs) acc = (acc @ visit x []) @ generic_visit xs []"
    using x[of acc] xs[of "visit x acc"] by simp
  moreover have "generic_visit (x # xs) [] = visit x [] @ generic_visit xs []"
    using xs[of "visit x []"] by simp
  ultimately show ?case by simp
qed

lemma size_elt: "x \<in> set es \<Longrightarrow> size x < Suc (size_list size es)"
  by (induction es) auto

lemma visit_acc: "visit e acc = acc @ visit e []"
proof (induction e arbitrary: acc rule: measure_induct_rule[where f = size])
  case (less e)
  show ?case
  proof (cases e)
    case (Name n)
    then show ?thesis by simp
  next
    case (Attribute v a)
    then show ?thesis by simp
  next
    case (Constant c)
    then show ?thesis by simp
  next
    case (BinOp l op r)
    have l: "\<And>a. visit l a = a @ visit l []" by (rule less) (simp add: BinOp)
    have r: "\<And>a. visit r a = a @ visit r []" by (rule less) (simp add: BinOp)
    show ?thesis
    proof (cases "op = BitOr")
      case True
      have "visit e acc = (acc @ visit l [] @ ['' | '']) @ visit r []"
        using BinOp True l[of acc] r[of "visit l acc @ ['' | '']"] by simp
      moreover have "visit e [] = (visit l [] @ ['' | '']) @ visit r []"
        using BinOp True r[of "visit l [] @ ['' | '']"] by simp
      ultimately show ?thesis by simp
    next
      case False
      have "visit e acc = (acc @ visit l []) @ visit r []"
        using BinOp False l[of acc] r[of "visit l acc"] by simp
      moreover have "visit e [] = visit l [] @ visit r []"
        using BinOp False r[of "visit l []"] by simp
      ultimately show ?thesis by simp
    qed
  next
    case (Tuple es)
    have "generic_visit es acc = acc @ generic_visit es []"
    proof (rule generic_visit_acc, rule less)
      fix x assume "x \<in> set es"
      then show "size x < size e" using size_elt[of x es] Tuple by simp
    qed
    then show ?thesis using Tuple by simp
  next
    case (Node cls es)
    have "generic_visit es acc = acc @ generic_visit es []"
    proof (rule generic_visit_acc, rule less)
      fix x assume "x \<in> set es"
      then show "size x < size e" using size_elt[of x es] Node by simp
    qed
    then show ?thesis using Node by simp
  next
    case (Subscript v sl)
    define inner where
      "inner a = (case sl of Tuple elts \<Rightarrow> visit_elts 0 elts a | _ \<Rightarrow> visit sl a)" for a
    have v: "\<And>a. visit v a = a @ visit v []" by (rule less) (simp add: Subscript)
    have sl: "\<And>a. visit sl a = a @ visit sl []" by (rule less) (simp add: Subscript)
    have inner: "inner a = a @ inner []" for a
    proof (cases sl)
      case (Tuple elts)
      have "visit_elts 0 elts a = a @ visit_elts 0 elts []"
      proof (rule visit_elts_acc, rule less)
        fix x assume "x \<in> set elts"
        then show "size x < size e" using size_elt[of x elts] Tuple Subscript by simp
      qed
      then show ?thesis using Tuple by (simp add: inner_def)
    qed (use sl[of a] in \<open>simp_all add: inner_def\<close>)
    have unfold: "visit e a = inner (visit v a @ [''['']) @ ['']'']" for a
      using Subscript by (simp add: inner_def Let_def)
    have "visit e acc = acc @ visit v [] @ [''[''] @ inner [] @ ['']'']"
      using unfold[of acc] v[of acc] inner[of "visit v acc @ [''['']"] by simp
    moreover have "visit e [] = visit v [] @ [''[''] @ inner [] @ ['']'']"
      using unfold[of "[]"] inner[of "visit v [] @ [''['']"] by simp
    ultimately show ?thesis by simp
  qed
qed

lemma concat_visit_elts:
  "concat (visit_elts i es []) =
     (if es = [] then [] else (if i > 0 then '', '' else []) @ join '', '' (map render es))"
proof (induction es arbitrary: i)
  case Nil
  show ?case by simp
next
  case (Cons x xs)
  define pre where "pre = (if i > 0 then ['', ''] else [])"
  have "visit_elts i (x # xs) [] = visit_elts (i + 1) xs (visit x pre)"
    by (simp add: pre_def)
  also have "\<dots> = visit x pre @ visit_elts (i + 1) xs []"
    by (rule visit_elts_acc) (rule visit_acc)
  also have "visit x pre = pre @ visit x []"
    by (rule visit_acc)
  finally have step: "concat (visit_elts i (x # xs) []) =
      concat pre @ render x @ concat (visit_elts (i + 1) xs [])"
    by (simp add: render_def)
  show ?case
  proof (cases xs)
    case Nil
    then show ?thesis using step by (simp add: pre_def)
  next
    case (Cons y ys)
    then show ?thesis using step Cons.IH[of "i + 1"] by (simp add: pre_def)
  qed
qed

lemma render_simps:
  "render (Name n) = n"
  "render (Attribute v a) = a"
  "render (Constant c) = repr c"
  "render (BinOp l op r) = render l @ (if op = BitOr then '' | '' else []) @ render r"
  "render (Subscript v sl) = render v @ ''['' @ join '', '' (map render (slice_args sl)) @ '']''"
proof -
  show "render (Name n) = n" "render (Attribute v a) = a" "render (Constant c) = repr c"
    by (simp_all add: render_def)
  show "render (BinOp l op r) = render l @ (if op = BitOr then '' | '' else []) @ render r"
    using visit_acc[of r "visit l [] @ ['' | '']"] visit_acc[of r "visit l []"]
    by (simp add: render_def)
  have elts: "visit_elts 0 elts a = a @ visit_elts 0 elts []" for elts a
    by (rule visit_elts_acc) (rule visit_acc)
  have "visit (Subscript v sl) [] = visit v [] @ [''[''] @
        (case sl of Tuple elts \<Rightarrow> visit_elts 0 elts [] | _ \<Rightarrow> visit sl []) @ ['']'']"
  proof (cases sl)
    case (Tuple es)
    then show ?thesis
      using elts[of es "visit v [] @ [''['']"] by (simp add: Let_def)
  qed (use visit_acc[of sl "visit v [] @ [''['']"] in \<open>simp_all add: Let_def\<close>)
  moreover have "concat (case sl of Tuple elts \<Rightarrow> visit_elts 0 elts [] | _ \<Rightarrow> visit sl [])
      = join '', '' (map render (slice_args sl))"
    by (cases sl) (simp_all add: slice_args_def render_def concat_visit_elts)
  ultimately show "render (Subscript v sl) =
      render v @ ''['' @ join '', '' (map render (slice_args sl)) @ '']''"
    by (simp add: render_def)
qed


section \<open>Evaluations and the structure of the two facades\<close>







lemma facade_of_ast:
  "clean_annotation_string ast_parse s None =
     (case clean_annotation_ast ast_parse s of
        Inr r \<Rightarrow> Inr r | Inl e \<Rightarrow> Inr (clean_annotation_pattern s))"
  by (simp add: clean_annotation_string_def split: sum.splits)

lemma ast_of_syntax_error:
  "ast_parse s = Inl SyntaxError \<Longrightarrow>
     clean_annotation_ast ast_parse s = Inr (clean_annotation_pattern s)"
  by (simp add: clean_annotation_ast_def ast_path_def)

lemma ast_of_tree:
  "ast_parse s = Inr t \<Longrightarrow> clean_annotation_ast ast_parse s = Inr (render t)"
  by (simp add: clean_annotation_ast_def ast_path_def render_def)



lemma parse_chain:
  "py_parse ''outer.inner.MyType'' =
     Inr (Attribute (Attribute (Name ''outer'') ''inner'') ''MyType'')"
  by code_simp


lemma parse_list_x:
  "py_parse ''List[\"X\"]'' = Inr (Subscript (Name ''List'') (Constant (CStr ''X'')))"
  by code_simp

lemma parse_garbage: "py_parse ''{{{not valid'' = Inl SyntaxError"
  by code_simp

lemma pattern_garbage: "clean_annotation_pattern ''{{{not valid'' = ''{{{not valid''"
  by code_simp

lemma parse_empty: "py_parse [] = Inl SyntaxError"
  by code_simp

lemma pattern_empty: "clean_annotation_pattern [] = []"
  by code_simp



section \<open>The passes of the manual extractor\<close>

lemma fold_assign_if_absent_keeps:
  "pd k = Some v \<Longrightarrow> fold assign_if_absent ms pd k = Some v"
proof (induction ms arbitrary: pd)
  case Nil
  then show ?case by simp
next
  case (Cons mt ms)
  have "assign_if_absent mt pd k = Some v"
    using Cons.prems by (auto simp: assign_if_absent_def Let_def)
  then have "fold assign_if_absent ms (assign_if_absent mt pd) k = Some v"
    by (rule Cons.IH)
  then show ?case by simp
qed

lemma later_passes_keep:
  assumes "google_pass d k = Some v"
  shows "parse_docstring_manual d k = Some v"
proof -
  have "sphinx_pass d (google_pass d) k = Some v"
    unfolding sphinx_pass_def using assms by (rule fold_assign_if_absent_keeps)
  then have "numpy_pass d (sphinx_pass d (google_pass d)) k = Some v"
    by (cases "re_search s_flags numpy_pattern d")
      (simp_all add: numpy_pass_def fold_assign_if_absent_keeps)
  then show ?thesis by (simp add: parse_docstring_manual_def)
qed

lemma manual_two_params:
  "parse_docstring_manual ('':param x: first'' @ [CHR 0x0A] @ '':param x: second'') ''x''
     = Some ''second''"
  by code_simp

lemma google_two_params:
  "google_pass ('':param x: first'' @ [CHR 0x0A] @ '':param x: second'') ''x''
     = Some ''second''"
  by code_simp


lemma fold_assign_last:
  "fold assign ms pd k =
     (if filter (\<lambda>mt. match_group mt 1 = k) ms = [] then pd k
      else Some (strip (match_group (last (filter (\<lambda>mt. match_group mt 1 = k) ms)) 2)))"
proof (induction ms arbitrary: pd)
  case Nil
  show ?case by simp
next
  case (Cons mt ms)
  have step: "fold assign (mt # ms) pd k = fold assign ms (assign mt pd) k"
    by simp
  show ?case
  proof (cases "match_group mt 1 = k")
    case True
    then have "assign mt pd k = Some (strip (match_group mt 2))"
      by (simp add: assign_def Let_def)
    then show ?thesis using True by (simp only: step Cons.IH[of "assign mt pd"]) simp
  next
    case False
    then have "assign mt pd k = pd k"
      by (auto simp: assign_def Let_def)
    then show ?thesis using False by (simp only: step Cons.IH[of "assign mt pd"]) simp
  qed
qed

section \<open>String literals\<close>

lemma plain_not_special:
  assumes "is_plain_char c"
  shows "c \<noteq> CHR 0x5C" "c \<noteq> CHR 0x09" "c \<noteq> CHR 0x0A" "c \<noteq> CHR 0x0D"
    "\<not> (of_char c :: nat) < 32" "\<not> 127 \<le> (of_char c :: nat)"
  using assms by (auto simp: is_plain_char_def)

lemma repr_char_plain:
  "is_plain_char c \<Longrightarrow> c \<noteq> q \<Longrightarrow> repr_char q c = [c]"
  using plain_not_special[of c] by (simp add: repr_char_def)

lemma repr_str_plain:
  assumes "\<forall>c \<in> set t. is_plain_char c \<and> c \<noteq> CHR 0x27"
  shows "repr_str t = CHR 0x27 # t @ [CHR 0x27]"
proof -
  have "concat (map (repr_char (CHR 0x27)) t) = t"
    using assms by (induction t) (simp_all add: repr_char_plain)
  moreover have "CHR 0x27 \<notin> set t" using assms by auto
  ultimately show ?thesis by (simp add: repr_str_def Let_def)
qed

lemma tokenize_double_quoted:
  assumes "\<forall>c \<in> set t. is_plain_char c \<and> c \<noteq> CHR 0x22"
  shows "tokenize (CHR 0x22 # t @ [CHR 0x22]) = Some [STRING t]"
proof -
  have tw: "takeWhile (\<lambda>x. x \<noteq> CHR 0x22) (t @ [CHR 0x22]) = t"
    using assms by (simp add: takeWhile_append2)
  have dw: "dropWhile (\<lambda>x. x \<noteq> CHR 0x22) (t @ [CHR 0x22]) = [CHR 0x22]"
    using assms by (simp add: dropWhile_append2)
  have no: "\<not> (\<exists>x \<in> set t. \<not> is_plain_char x)" using assms by simp
  show ?thesis
    using no by (simp add: tw dw is_ident_start_def is_digit_def Let_def)
qed

lemma parse_string_token:
  "parse_expr [STRING t] = Some (Constant (CStr t), [])"
  by simp

lemma parse_double_quoted:
  assumes "\<forall>c \<in> set t. is_plain_char c \<and> c \<noteq> CHR 0x22"
  shows "py_parse (CHR 0x22 # t @ [CHR 0x22]) = Inr (Constant (CStr t))"
  using tokenize_double_quoted[OF assms] by (simp add: py_parse_def parse_string_token)

section \<open>Rendered type expressions are parsed back\<close>

text \<open>
  The equations of the parser and the tokenizer are unfolded one call at a time.
\<close>

declare parse_expr.simps [simp del] parse_ors.simps [simp del] parse_primary.simps [simp del]
  parse_trailers.simps [simp del] parse_args.simps [simp del] tokenize.simps [simp del]







































section \<open>The claims\<close>

subsection \<open>C1: idempotence\<close>




subsection \<open>C2: unwrapping of the repr wrapper\<close>



subsection \<open>C3: precedence in the manual extractor\<close>

text \<open>
  C3 (as stated, refuted). The claim says that for a docstring with the line
  \<^verbatim>\<open>:param x: first\<close> and later the line \<^verbatim>\<open>:param x: second\<close> the mapping for
  \<^verbatim>\<open>x\<close> is \<^verbatim>\<open>first\<close>. Both lines match in the first pass, whose loop assigns
  without a test: the later match replaces the earlier one.
\<close>

theorem docstring_precedence_counterexample:
  "parse_docstring_manual ('':param x: first'' @ [CHR 0x0A] @ '':param x: second'') ''x''
     \<noteq> Some ''first''"
  using manual_two_params by simp

text \<open>
  C3 (amended). What the first pass has stored for a name is what the extractor
  returns for it: the second and third pass only fill names that are still absent.
  Within the first pass the last match for a name wins: the value stored for \<open>k\<close> is
  the stripped description of the last \<^verbatim>\<open>:param k:\<close> match.
\<close>

theorem docstring_precedence:
  "(google_pass d k = Some v \<longrightarrow> parse_docstring_manual d k = Some v) \<and>
   google_pass d k =
     (if param_matches d k = [] then None
      else Some (strip (match_group (last (param_matches d k)) 2)))"
  by (simp add: later_passes_keep google_pass_def param_matches_def fold_assign_last)

text \<open>The witness for C3: the docstring of the claim, where \<^verbatim>\<open>x\<close> gets \<^verbatim>\<open>second\<close>.\<close>

theorem docstring_precedence_witness:
  "google_pass ('':param x: first'' @ [CHR 0x0A] @ '':param x: second'') ''x'' = Some ''second'' \<and>
   parse_docstring_manual ('':param x: first'' @ [CHR 0x0A] @ '':param x: second'') ''x''
     = Some ''second''"
  using docstring_precedence[of "'':param x: first'' @ [CHR 0x0A] @ '':param x: second''"
      "''x''" "''second''"] google_two_params
  by simp

subsection \<open>C4: expressions outside the supported constructs\<close>




subsection \<open>C5: literal constants\<close>

text \<open>
  C5 (as stated, refuted). The claim says that \<^verbatim>\<open>List["X"]\<close> keeps the double quotes
  around \<^verbatim>\<open>X\<close>. The visitor appends \<^verbatim>\<open>repr(node.value)\<close>, and \<^verbatim>\<open>repr\<close> of the
  string \<^verbatim>\<open>X\<close> is in single quotes.
\<close>

theorem literal_counterexample:
  "clean_annotation_ast py_parse ''List[\"X\"]'' = Inr ''List['X']'' \<and>
   clean_annotation_ast py_parse ''List[\"X\"]'' \<noteq> Inr ''List[\"X\"]''"
  by (simp add: ast_of_tree parse_list_x render_simps slice_args_def repr_str_def repr_char_def
      Let_def)

text \<open>
  C5 (amended). A literal is rendered as \<^verbatim>\<open>repr\<close> of its value, whatever the quotes of
  the source: a string literal in double quotes whose text is printable ASCII without
  backslash and without quote characters is rendered in single quotes.
\<close>

theorem literal_rendering:
  assumes "\<forall>c \<in> set t. is_plain_char c \<and> c \<noteq> CHR 0x22 \<and> c \<noteq> CHR 0x27"
  shows "clean_annotation_ast py_parse (CHR 0x22 # t @ [CHR 0x22]) = Inr (CHR 0x27 # t @ [CHR 0x27])"
proof -
  have "py_parse (CHR 0x22 # t @ [CHR 0x22]) = Inr (Constant (CStr t))"
    using assms by (intro parse_double_quoted) simp
  moreover have "repr_str t = CHR 0x27 # t @ [CHR 0x27]"
    using assms by (intro repr_str_plain) simp
  ultimately show ?thesis by (simp add: ast_of_tree render_simps)
qed

text \<open>The witness for C5: the literal \<^verbatim>\<open>"X"\<close>.\<close>

theorem literal_rendering_witness:
  "clean_annotation_ast py_parse [CHR 0x22, CHR ''X'', CHR 0x22] = Inr [CHR 0x27, CHR ''X'', CHR 0x27]"
  using literal_rendering[of "''X''"] by (simp add: is_plain_char_def)


subsection \<open>C6: qualifier stripping\<close>

text \<open>
  C6. For every input that parses as an attribute access (a dotted chain), the
  normalizer returns the last segment only, whatever stands before the last dot.
\<close>

theorem qualifier_stripping:
  "ast_parse s = Inr (Attribute v attr) \<Longrightarrow>
     clean_annotation_ast ast_parse s = Inr attr \<and>
     clean_annotation_string ast_parse s None = Inr attr"
  by (simp add: facade_of_ast ast_of_tree render_simps)

text \<open>The witness for C6: \<^verbatim>\<open>outer.inner.MyType\<close> becomes \<^verbatim>\<open>MyType\<close>.\<close>

theorem qualifier_stripping_witness:
  "py_parse ''outer.inner.MyType'' =
     Inr (Attribute (Attribute (Name ''outer'') ''inner'') ''MyType'') \<and>
   clean_annotation_ast py_parse ''outer.inner.MyType'' = Inr ''MyType'' \<and>
   clean_annotation_string py_parse ''outer.inner.MyType'' None = Inr ''MyType''"
  using qualifier_stripping[of py_parse "''outer.inner.MyType''", OF parse_chain] parse_chain
  by simp

subsection \<open>C7: subscripts\<close>



subsection \<open>C8: totality of the public operations\<close>

text \<open>
  C8. Whatever \<^verbatim>\<open>ast.parse\<close> and \<^verbatim>\<open>docstring_parser.parse\<close> return or raise,
  \<^verbatim>\<open>clean_annotation_string\<close> returns a string and \<^verbatim>\<open>parse_docstring_params\<close> a
  mapping: no exception leaves either of them.
\<close>

theorem public_operations_total:
  "(\<exists>r. clean_annotation_string ast_parse x color = Inr r) \<and>
   (\<exists>m. parse_docstring_params parse_docstring d style = Inr m)"
  by (simp add: clean_annotation_string_def parse_docstring_params_def Let_def
      split: option.splits sum.splits)

text \<open>
  The witness for C8: the garbage string of the claim, and a docstring on which the
  library raises.
\<close>

theorem public_operations_total_witness:
  "clean_annotation_string py_parse ''{{{not valid'' None = Inr ''{{{not valid'' \<and>
   (\<exists>m. parse_docstring_params (\<lambda>d. Inl OtherException) '':param x: first'' GOOGLE = Inr m)"
  using public_operations_total[of py_parse "''{{{not valid''" None
      "\<lambda>d. Inl OtherException" "'':param x: first''" GOOGLE]
  by (simp add: facade_of_ast ast_of_syntax_error parse_garbage pattern_garbage)

subsection \<open>C9: empty inputs\<close>

text \<open>
  C9. The normalizer maps the empty string to the empty string, and the extractor
  maps the empty docstring to the empty mapping, for every style and without calling the
  library.
\<close>

theorem empty_inputs:
  "clean_annotation_ast py_parse [] = Inr [] \<and>
   clean_annotation_string py_parse [] None = Inr [] \<and>
   parse_docstring_params parse_docstring [] style = Inr Map.empty"
  by (simp add: facade_of_ast ast_of_syntax_error parse_empty pattern_empty
      parse_docstring_params_def)

text \<open>The witness for C9: the four styles.\<close>

theorem empty_inputs_witness:
  "list_all (\<lambda>style. parse_docstring_params (\<lambda>d. Inl OtherException) [] style = Inr Map.empty)
     [GOOGLE, NUMPY, SPHINX, AUTO]"
  using empty_inputs[of "\<lambda>d. Inl OtherException"] by simp

subsection \<open>C10: the style argument\<close>

text \<open>
  C10. The result of \<^verbatim>\<open>parse_docstring_params\<close> does not depend on the style: for
  every library behaviour, docstring and two styles the results are equal.
\<close>

theorem style_not_consulted:
  "parse_docstring_params parse_docstring d s1 = parse_docstring_params parse_docstring d s2"
  by (simp add: parse_docstring_params_def)

text \<open>
  The witness for C10: one docstring on which the library raises, so that the manual
  extractor answers, and one on which it returns a parameter.
\<close>

theorem style_not_consulted_witness:
  "parse_docstring_params (\<lambda>d. Inl OtherException) '':param x: first'' GOOGLE =
   parse_docstring_params (\<lambda>d. Inl OtherException) '':param x: first'' NUMPY \<and>
   parse_docstring_params (\<lambda>d. Inr [\<lparr>arg_name = ''x'', description = Some ''first''\<rparr>])
      '':param x: first'' SPHINX =
   parse_docstring_params (\<lambda>d. Inr [\<lparr>arg_name = ''x'', description = Some ''first''\<rparr>])
      '':param x: first'' AUTO"
  using style_not_consulted[of "\<lambda>d. Inl OtherException" "'':param x: first''" GOOGLE NUMPY]
    style_not_consulted[of "\<lambda>d. Inr [\<lparr>arg_name = ''x'', description = Some ''first''\<rparr>]"
      "'':param x: first''" SPHINX AUTO]
  by simp

end
